theory Spec2Isabelle
  imports Complex_Main "HOL-Library.Multiset" "HOL-Library.Log_Nat"
begin

section \<open>Python values shared by both source files\<close>

text \<open>
  The repository consists of the script \<^verbatim>\<open>examples/wav2vec/profiles_gen.py\<close> and
  the criterion \<^verbatim>\<open>fairseq/criterions/cross_entropy.py\<close>. Exceptions are values:
  a computation returns \<open>Inl e\<close> where the Python raises \<open>e\<close>. The entries of a numpy
  array are real numbers. In the script the features tensor and the profiles are float32
  tensors, with the conversion and the arithmetic of float32; the arithmetic of the
  criterion is over the reals.
\<close>

datatype error =
  ValueError | IndexError | RuntimeError | ZeroDivisionError | AttributeError

text \<open>
  A two-dimensional numpy array or torch tensor: its shape and its entries. Only the
  entries inside the shape are ever read.
\<close>

record ndarray =
  shape0 :: nat
  shape1 :: nat
  item :: "nat \<Rightarrow> nat \<Rightarrow> real"

text \<open>
  \<^verbatim>\<open>np.array(rows)\<close> for a list of equally long rows, and \<^verbatim>\<open>np.zeros((m, n))\<close>:
  the arrays that concrete inputs are written with.
\<close>

definition np_array :: "real list list \<Rightarrow> ndarray" where
  "np_array rows =
     \<lparr>shape0 = length rows, shape1 = (case rows of [] \<Rightarrow> 0 | r # _ \<Rightarrow> length r),
      item = (\<lambda>r c. rows ! r ! c)\<rparr>"

definition np_zeros :: "nat \<Rightarrow> nat \<Rightarrow> ndarray" where
  "np_zeros m n = \<lparr>shape0 = m, shape1 = n, item = (\<lambda>r c. 0)\<rparr>"

type_synonym tensor2 = "real list list"
type_synonym tensor3 = "real list list list"

section \<open>float32\<close>

text \<open>
  A float32 value is a finite real, an infinity or NaN. \<open>float32_of_real\<close> is the
  conversion of IEEE 754 binary32: round to nearest with 24 significant bits, ties to the
  even significand, the fixed spacing \<open>2 powi (-149)\<close> below \<open>2 powi (-126)\<close>, and infinity
  when the rounded magnitude reaches \<open>2 ^ 128\<close>. \<open>exponent x\<close> is the integer part of the
  binary logarithm of \<open>\<bar>x\<bar>\<close>, kept between \<open>-126\<close> and \<open>127\<close> and computed on
  integers (lemma \<open>exponent_bounds\<close>).
\<close>

datatype float32 = Finite real | PosInf | NegInf | NaN

definition pow2 :: "int \<Rightarrow> real" where
  "pow2 e = 2 powi e"

definition overflow_threshold :: real where
  "overflow_threshold = 2 ^ 128"

definition smallest_normal :: real where
  "smallest_normal = 2 powi (- 126)"

definition exponent :: "real \<Rightarrow> int" where
  "exponent x =
     (if \<bar>x\<bar> < smallest_normal then - 126
      else if overflow_threshold \<le> \<bar>x\<bar> then 127
      else if 1 \<le> \<bar>x\<bar> then bitlen \<lfloor>\<bar>x\<bar>\<rfloor> - 1
      else - bitlen (\<lceil>1 / \<bar>x\<bar>\<rceil> - 1))"

definition round_half_even :: "real \<Rightarrow> int" where
  "round_half_even q =
     (if q - of_int \<lfloor>q\<rfloor> < 1 / 2 then \<lfloor>q\<rfloor>
      else if 1 / 2 < q - of_int \<lfloor>q\<rfloor> then \<lfloor>q\<rfloor> + 1
      else if even \<lfloor>q\<rfloor> then \<lfloor>q\<rfloor> else \<lfloor>q\<rfloor> + 1)"

definition float32_of_real :: "real \<Rightarrow> float32" where
  "float32_of_real x =
     (let ulp = pow2 (exponent x - 23);
          r = of_int (round_half_even (x / ulp)) * ulp
      in if overflow_threshold \<le> r then PosInf
         else if r \<le> - overflow_threshold then NegInf
         else Finite r)"



type_synonym float_tensor2 = "float32 list list"
type_synonym float_tensor3 = "float32 list list list"

section \<open>profiles\_gen.py: collate\_fn\<close>

text \<open>\<^verbatim>\<open>torch.from_numpy\<close>: the rows of the array, each a list of its entries.\<close>

definition from_numpy :: "ndarray \<Rightarrow> tensor2" where
  "from_numpy x = map (\<lambda>r. map (\<lambda>c. item x r c) [0..<shape1 x]) [0..<shape0 x]"

text \<open>
  \<^verbatim>\<open>torch.zeros\<close> raises RuntimeError on a negative dimension. The tensor of three
  dimensions is \<open>features\<close>, a float32 tensor. The tensors of two dimensions are the zero
  padding, which \<^verbatim>\<open>torch.cat\<close> promotes to the type of the example, and the mask
  \<open>lengths\<close>, which only ever holds 0 and 1.
\<close>

definition torch_zeros2 :: "int \<Rightarrow> int \<Rightarrow> error + tensor2" where
  "torch_zeros2 m n =
     (if m < 0 \<or> n < 0 then Inl RuntimeError
      else Inr (replicate (nat m) (replicate (nat n) 0)))"

definition torch_zeros3 :: "int \<Rightarrow> int \<Rightarrow> int \<Rightarrow> error + float_tensor3" where
  "torch_zeros3 b m n =
     (if b < 0 \<or> m < 0 \<or> n < 0 then Inl RuntimeError
      else Inr (replicate (nat b) (replicate (nat m) (replicate (nat n) (Finite 0)))))"

text \<open>\<^verbatim>\<open>torch.cat([a, b], dim=1)\<close>: both operands need the same number of rows.\<close>

definition torch_cat_dim1 :: "tensor2 \<Rightarrow> tensor2 \<Rightarrow> error + tensor2" where
  "torch_cat_dim1 a b =
     (if length a = length b then Inr (map2 (@) a b) else Inl RuntimeError)"

text \<open>
  \<^verbatim>\<open>features[i] = t\<close>: the slot has \<open>n_ftrs\<close> rows and torch broadcasts the source
  to it, so a source of \<open>n_ftrs\<close> rows is stored as it is, a source of one row is
  repeated \<open>n_ftrs\<close> times, and any other row count raises RuntimeError. (The columns
  of slot and source are both \<open>max_len\<close> wide where the call is made.) The slot is
  float32: every entry is converted as it is stored.
\<close>

definition setitem_rows :: "nat \<Rightarrow> tensor2 \<Rightarrow> error + float_tensor2" where
  "setitem_rows n_ftrs t =
     (if length t = n_ftrs then Inr (map (map float32_of_real) t)
      else if length t = 1 then Inr (replicate n_ftrs (map float32_of_real (hd t)))
      else Inl RuntimeError)"

text \<open>\<^verbatim>\<open>row[:k] = v\<close>: the first \<open>k\<close> positions of the row, as far as it reaches.\<close>

definition slice_assign :: "nat \<Rightarrow> real \<Rightarrow> real list \<Rightarrow> real list" where
  "slice_assign k v row = replicate (min k (length row)) v @ drop k row"

text \<open>\<^verbatim>\<open>.long()\<close> truncates towards zero.\<close>

definition long :: "real \<Rightarrow> int" where
  "long x = (if 0 \<le> x then \<lfloor>x\<rfloor> else \<lceil>x\<rceil>)"

text \<open>Python's \<^verbatim>\<open>max\<close> of a sequence; the empty sequence raises ValueError.\<close>

fun py_max :: "int list \<Rightarrow> error + int" where
  "py_max [] = Inl ValueError"
| "py_max (x # xs) = Inr (fold max xs x)"

text \<open>
  One element of \<open>data\<close>: the tuple \<open>(id, example, label, length)\<close> that
  \<^verbatim>\<open>MyDataset.__getitem__\<close> builds. The length is a field of its own, which
  \<^verbatim>\<open>collate_fn\<close> reads apart from the example's shape.
\<close>

type_synonym 'k datum = "'k \<times> ndarray \<times> int \<times> int"

definition datum_id :: "'k datum \<Rightarrow> 'k" where
  "datum_id d = fst d"

definition datum_example :: "'k datum \<Rightarrow> ndarray" where
  "datum_example d = fst (snd d)"

definition datum_label :: "'k datum \<Rightarrow> int" where
  "datum_label d = fst (snd (snd d))"

definition datum_length :: "'k datum \<Rightarrow> int" where
  "datum_length d = snd (snd (snd d))"

text \<open>
  The right-hand side of line 41 for example \<open>x\<close>: the example followed by
  \<open>max_len - k\<close> zero columns.
\<close>

definition padded_example :: "int \<Rightarrow> ndarray \<Rightarrow> error + tensor2" where
  "padded_example max_len x =
     (case torch_zeros2 (int (shape0 x)) (max_len - int (shape1 x)) of
        Inl e \<Rightarrow> Inl e
      | Inr z \<Rightarrow> torch_cat_dim1 (from_numpy x) z)"

text \<open>
  The value that line 41 stores in \<open>features[i]\<close> for example \<open>x\<close>, or the error it
  raises.
\<close>

definition feature_block :: "nat \<Rightarrow> int \<Rightarrow> ndarray \<Rightarrow> error + float_tensor2" where
  "feature_block n_ftrs max_len x =
     (case padded_example max_len x of
        Inl e \<Rightarrow> Inl e
      | Inr t \<Rightarrow> setitem_rows n_ftrs t)"

text \<open>
  The loop of lines 37 to 42 over the indices still to visit; the state is the pair of
  preallocated tensors \<open>(features, lengths)\<close>, updated at index \<open>i\<close>.
\<close>

fun collate_loop ::
  "'k datum list \<Rightarrow> nat \<Rightarrow> int \<Rightarrow> nat list \<Rightarrow> float_tensor3 \<times> tensor2 \<Rightarrow>
   error + float_tensor3 \<times> tensor2"
where
  "collate_loop data n_ftrs max_len [] st = Inr st"
| "collate_loop data n_ftrs max_len (i # is) st =
     (let x = datum_example (data ! i); k = shape1 x in
      case feature_block n_ftrs max_len x of
        Inl e \<Rightarrow> Inl e
      | Inr blk \<Rightarrow>
          collate_loop data n_ftrs max_len is
            ((fst st)[i := blk], (snd st)[i := slice_assign k 1 (snd st ! i)]))"

text \<open>
  \<^verbatim>\<open>collate_fn(data)\<close>. Unpacking \<^verbatim>\<open>zip(*data)\<close> of an empty batch raises
  ValueError. The result is \<open>(ids, features, labels, lengths)\<close>; \<^verbatim>\<open>features.float()\<close>
  leaves the float32 tensor as it is.
\<close>

definition collate_fn ::
  "'k datum list \<Rightarrow> error + 'k list \<times> float_tensor3 \<times> int list \<times> int list list"
where
  "collate_fn data =
     (case py_max (map datum_length data) of
        Inl e \<Rightarrow> Inl e
      | Inr max_len \<Rightarrow>
          (let n_ftrs = shape0 (datum_example (hd data)) in
           case torch_zeros3 (int (length data)) (int n_ftrs) max_len of
             Inl e \<Rightarrow> Inl e
           | Inr features \<Rightarrow>
               (case torch_zeros2 (int (length data)) max_len of
                  Inl e \<Rightarrow> Inl e
                | Inr lengths \<Rightarrow>
                    (case collate_loop data n_ftrs max_len [0..<length data] (features, lengths) of
                       Inl e \<Rightarrow> Inl e
                     | Inr st \<Rightarrow>
                         Inr (map datum_id data, fst st, map datum_label data,
                              map (map long) (snd st))))))"

text \<open>
  Row \<open>r\<close> of the padded example as it is stored: its \<open>k\<close> entries followed by zeros
  up to \<open>max_len\<close>, in float32. The properties of \<open>collate_fn\<close> are proved with it.
\<close>

definition padded_row :: "int \<Rightarrow> ndarray \<Rightarrow> nat \<Rightarrow> float32 list" where
  "padded_row max_len x r =
     map float32_of_real
       (map (item x r) [0..<shape1 x] @ replicate (nat max_len - shape1 x) 0)"

section \<open>profiles\_gen.py: the generation pass\<close>






text \<open>
  \<^verbatim>\<open>torch.stack(val)\<close> raises RuntimeError on an empty list and on vectors of
  different sizes. \<^verbatim>\<open>torch.mean(t, dim=0)\<close> is a float32 reduction: entry by entry it
  adds the stacked vectors in their order, from zero, and divides the sum by their
  number, each operation rounded to float32.
\<close>

definition torch_stack :: "float32 list list \<Rightarrow> error + float32 list list" where
  "torch_stack val =
     (if val = [] then Inl RuntimeError
      else if list_all (\<lambda>v. length v = length (hd val)) val then Inr val
      else Inl RuntimeError)"





text \<open>
  \<^verbatim>\<open>str.rfind\<close> gives the last index of the character, or \<open>-1\<close>; the slice
  \<^verbatim>\<open>s[:n]\<close> counts a negative \<open>n\<close> from the end.
\<close>

definition rfind :: "string \<Rightarrow> char \<Rightarrow> int" where
  "rfind s c =
     (if c \<in> set s then int (length s) - 1 - int (length (takeWhile (\<lambda>x. x \<noteq> c) (rev s)))
      else - 1)"

definition slice_to :: "string \<Rightarrow> int \<Rightarrow> string" where
  "slice_to s n = (if n < 0 then take (nat (int (length s) + n)) s else take (nat n) s)"

definition save_path :: "string \<Rightarrow> string" where
  "save_path path = slice_to path (rfind path (CHR ''/'')) @ ''/profile.pt''"


section \<open>cross\_entropy.py\<close>

text \<open>
  The output of the network is the logits tensor or, in the encoder-contrastive mode, the
  tuple \<open>(ae_input, ae_hidden_output, cnn_hidden_output, ae_output, net_output)\<close>.
\<close>

datatype net_output =
  Logits ndarray
| Aux ndarray ndarray ndarray ndarray ndarray

text \<open>
  A sample: the input of the network, the class index of every example (a
  one-dimensional tensor, so \<^verbatim>\<open>size(0)\<close> is its length and \<^verbatim>\<open>view(-1)\<close> leaves it as
  it is) and the token count.
\<close>

record 'a sample =
  net_input :: 'a
  target :: "int list"
  ntokens :: int

text \<open>
  The model belongs to the framework, not to the repository: its forward pass and the
  two methods the criterion calls are parameters. \<open>get_normalized_probs\<close> is the call
  with \<^verbatim>\<open>log_probs=True\<close>.
\<close>

record 'a model =
  call :: "'a \<Rightarrow> net_output"
  get_normalized_probs :: "net_output \<Rightarrow> ndarray"
  get_targets :: "'a sample \<Rightarrow> net_output \<Rightarrow> int list"

text \<open>
  \<^verbatim>\<open>torch.nn.MSELoss\<close> on \<open>(ae_output, ae_input)\<close> and \<^verbatim>\<open>SupConLoss\<close> on the stacked
  hidden representations \<open>(ae_hidden_output, cnn_hidden_output)\<close>: the second is defined
  outside the two source files, and both are parameters.
\<close>

record aux_losses =
  mse_loss :: "ndarray \<Rightarrow> ndarray \<Rightarrow> error + real"
  supcon_loss :: "ndarray \<Rightarrow> ndarray \<Rightarrow> error + real"

record criterion =
  encoder_contrastive :: bool
  sentence_avg :: bool

text \<open>The loss: a scalar under \<^verbatim>\<open>reduction="sum"\<close>, one entry per example under "none".\<close>

datatype loss = Scalar real | PerExample "real list"

text \<open>
  \<^verbatim>\<open>F.nll_loss(lprobs, target, reduction=..., weight=...)\<close>: example \<open>i\<close> contributes
  \<open>- weight[t] * lprobs[i][t]\<close> for its target \<open>t\<close>, and nothing for the default
  \<^verbatim>\<open>ignore_index\<close> \<open>-100\<close>. It raises ValueError when the batch sizes differ and
  RuntimeError when the weight does not have one entry per class or a target is no class
  index.
\<close>

definition nll_terms :: "real list \<Rightarrow> ndarray \<Rightarrow> int list \<Rightarrow> real list" where
  "nll_terms weight lprobs tgt =
     map (\<lambda>i. if tgt ! i = - 100 then 0
               else - (weight ! nat (tgt ! i)) * item lprobs i (nat (tgt ! i)))
       [0..<length tgt]"

definition nll_loss :: "ndarray \<Rightarrow> int list \<Rightarrow> bool \<Rightarrow> real list \<Rightarrow> error + loss" where
  "nll_loss lprobs tgt reduce weight =
     (if shape0 lprobs \<noteq> length tgt then Inl ValueError
      else if length weight \<noteq> shape1 lprobs then Inl RuntimeError
      else if list_ex (\<lambda>t. t \<noteq> - 100 \<and> (t < 0 \<or> int (shape1 lprobs) \<le> t)) tgt
        then Inl RuntimeError
      else if reduce then Inr (Scalar (sum_list (nll_terms weight lprobs tgt)))
      else Inr (PerExample (nll_terms weight lprobs tgt)))"

text \<open>The class weights written in line 84.\<close>

definition class_weight :: "real list" where
  "class_weight = [1, 7]"

text \<open>\<^verbatim>\<open>lprobs.argmax(dim=1)\<close>: for every row the first column that holds its maximum.\<close>

definition argmax_row :: "ndarray \<Rightarrow> nat \<Rightarrow> int" where
  "argmax_row x i =
     int (fold (\<lambda>c best. if item x i best < item x i c then c else best) [0..<shape1 x] 0)"

text \<open>
  Unpacking \<open>net_output\<close> into five names (line 69). A tuple of five unpacks into its
  parts. A tensor unpacks along its first dimension, so it raises ValueError unless it
  has five rows; each row is then a one-dimensional tensor, held here as a tensor of one
  row.
\<close>

definition row_tensor :: "ndarray \<Rightarrow> nat \<Rightarrow> ndarray" where
  "row_tensor x r = \<lparr>shape0 = 1, shape1 = shape1 x, item = (\<lambda>i c. item x r c)\<rparr>"

fun unpack5 :: "net_output \<Rightarrow> error + ndarray \<times> ndarray \<times> ndarray \<times> ndarray \<times> ndarray" where
  "unpack5 (Aux a h c out l) = Inr (a, h, c, out, l)"
| "unpack5 (Logits x) =
     (if shape0 x = 5
      then Inr (row_tensor x 0, row_tensor x 1, row_tensor x 2, row_tensor x 3, row_tensor x 4)
      else Inl ValueError)"

text \<open>\<open>ae_loss + loss + 0.0005 * cl_loss\<close>, the scalars broadcast over a loss vector.\<close>

fun add_aux :: "real \<Rightarrow> real \<Rightarrow> loss \<Rightarrow> loss" where
  "add_aux ae cl (Scalar l) = Scalar (ae + l + 0.0005 * cl)"
| "add_aux ae cl (PerExample ls) = PerExample (map (\<lambda>l. ae + l + 0.0005 * cl) ls)"

text \<open>
  Lines 71 to 96 of \<^verbatim>\<open>compute_loss\<close>, once \<open>net_output\<close> is the tensor that the
  classification reads; \<open>aux_in\<close> holds the four other tensors in the encoder-contrastive
  mode and nothing otherwise.
\<close>

definition loss_of ::
  "aux_losses \<Rightarrow> 'a model \<Rightarrow> (ndarray \<times> ndarray \<times> ndarray \<times> ndarray) option \<Rightarrow>
   net_output \<Rightarrow> 'a sample \<Rightarrow> bool \<Rightarrow> error + loss \<times> int list \<times> int list"
where
  "loss_of aux m aux_in net smp reduce =
     (let lprobs = get_normalized_probs m net;
          tgt = get_targets m smp net;
          preds = map (argmax_row lprobs) [0..<shape0 lprobs]
      in case nll_loss lprobs tgt reduce class_weight of
           Inl e \<Rightarrow> Inl e
         | Inr l \<Rightarrow>
             (case aux_in of
                None \<Rightarrow> Inr (l, preds, tgt)
              | Some (ae_input, ae_hidden_output, cnn_hidden_output, ae_output) \<Rightarrow>
                  (case mse_loss aux ae_output ae_input of
                     Inl e \<Rightarrow> Inl e
                   | Inr ae_loss \<Rightarrow>
                       (case supcon_loss aux ae_hidden_output cnn_hidden_output of
                          Inl e \<Rightarrow> Inl e
                        | Inr cl_loss \<Rightarrow> Inr (add_aux ae_loss cl_loss l, preds, tgt)))))"

text \<open>\<^verbatim>\<open>compute_loss(model, net_output, sample, reduce)\<close>: the loss and \<open>(preds, target)\<close>.\<close>

definition compute_loss ::
  "aux_losses \<Rightarrow> criterion \<Rightarrow> 'a model \<Rightarrow> net_output \<Rightarrow> 'a sample \<Rightarrow> bool \<Rightarrow>
   error + loss \<times> int list \<times> int list"
where
  "compute_loss aux crit m net smp reduce =
     (if encoder_contrastive crit
      then (case unpack5 net of
              Inl e \<Rightarrow> Inl e
            | Inr (ae_input, ae_hidden_output, cnn_hidden_output, ae_output, l) \<Rightarrow>
                loss_of aux m (Some (ae_input, ae_hidden_output, cnn_hidden_output, ae_output))
                  (Logits l) smp reduce)
      else loss_of aux m None net smp reduce)"

text \<open>\<^verbatim>\<open>F.softmax(x, dim=1)\<close> on a tensor.\<close>

definition softmax_dim1 :: "ndarray \<Rightarrow> ndarray" where
  "softmax_dim1 x =
     \<lparr>shape0 = shape0 x, shape1 = shape1 x,
      item = (\<lambda>i c. exp (item x i c) / sum_list (map (\<lambda>c'. exp (item x i c')) [0..<shape1 x]))\<rparr>"

text \<open>
  Lines 49 to 53 of \<^verbatim>\<open>forward\<close>. A tuple has no \<^verbatim>\<open>softmax\<close>, which raises
  AttributeError. Column 1 is read from the squeezed row of a batch of one and from every
  row otherwise; it raises IndexError when there are fewer than two classes.
\<close>

fun predicts_of :: "net_output \<Rightarrow> error + real list" where
  "predicts_of (Aux a h c out l) = Inl AttributeError"
| "predicts_of (Logits x) =
     (let raw_predicts = softmax_dim1 x in
      if shape0 raw_predicts = 1
      then (if 2 \<le> shape1 raw_predicts then Inr [item raw_predicts 0 1] else Inl IndexError)
      else (if 2 \<le> shape1 raw_predicts
            then Inr (map (\<lambda>i. item raw_predicts i 1) [0..<shape0 raw_predicts])
            else Inl IndexError))"

text \<open>The dictionary \<open>logging_output\<close> of \<^verbatim>\<open>forward\<close>, one field per key.\<close>

record logging_output =
  lo_loss :: loss
  lo_ntokens :: int
  lo_nsentences :: int
  lo_sample_size :: int
  lo_ncorrect :: int
  lo_predicts :: "real list"
  lo_targets :: "int list"

text \<open>\<^verbatim>\<open>forward(model, sample, reduce)\<close>: the loss, the sample size and the logging output.\<close>

definition forward ::
  "aux_losses \<Rightarrow> criterion \<Rightarrow> 'a model \<Rightarrow> 'a sample \<Rightarrow> bool \<Rightarrow>
   error + loss \<times> int \<times> logging_output"
where
  "forward aux crit m smp reduce =
     (let net = call m (net_input smp) in
      case compute_loss aux crit m net smp reduce of
        Inl e \<Rightarrow> Inl e
      | Inr (l, preds, tgt) \<Rightarrow>
          (let sample_size =
                 (if sentence_avg crit then int (length (target smp)) else ntokens smp)
           in case predicts_of net of
                Inl e \<Rightarrow> Inl e
              | Inr predicts \<Rightarrow>
                  Inr (l, sample_size,
                       \<lparr>lo_loss = l, lo_ntokens = ntokens smp,
                        lo_nsentences = int (length (target smp)),
                        lo_sample_size = sample_size,
                        lo_ncorrect = int (length (filter (\<lambda>(p, t). p = t) (zip preds tgt))),
                        lo_predicts = predicts, lo_targets = tgt\<rparr>)))"

text \<open>
  \<^verbatim>\<open>reduce_metrics\<close> reads numeric fields of the logging dictionaries, with
  \<^verbatim>\<open>log.get(key, 0)\<close>, and sums them from 0. A division of Python numbers by zero raises
  ZeroDivisionError.
\<close>

type_synonym log_dict = "string \<Rightarrow> real option"

definition log_get :: "log_dict \<Rightarrow> string \<Rightarrow> real" where
  "log_get d key = (case d key of None \<Rightarrow> 0 | Some v \<Rightarrow> v)"

definition sum_field :: "log_dict list \<Rightarrow> string \<Rightarrow> real" where
  "sum_field logging_outputs key = sum_list (map (\<lambda>d. log_get d key) logging_outputs)"

definition py_div :: "real \<Rightarrow> real \<Rightarrow> error + real" where
  "py_div a b = (if b = 0 then Inl ZeroDivisionError else Inr (a / b))"

text \<open>
  What the call hands to the metrics registry of the framework:
  \<^verbatim>\<open>log_scalar(key, value, weight, round)\<close>, and \<^verbatim>\<open>log_derived(key, fn)\<close> where
  \<open>fn\<close> is the perplexity of the average of the meter named.
\<close>

datatype metric =
  LogScalar string real real nat
| LogDerivedPerplexity string string

text \<open>\<^verbatim>\<open>reduce_metrics(logging_outputs)\<close>: the metrics logged, in order, when it returns.\<close>

definition reduce_metrics :: "log_dict list \<Rightarrow> error + metric list" where
  "reduce_metrics logging_outputs =
     (let loss_sum = sum_field logging_outputs ''loss'';
          n_tokens = sum_field logging_outputs ''ntokens'';
          sample_size = sum_field logging_outputs ''sample_size''
      in case py_div loss_sum sample_size of
           Inl e \<Rightarrow> Inl e
         | Inr q \<Rightarrow>
             (case (if sample_size \<noteq> n_tokens
                    then (case py_div loss_sum n_tokens of
                            Inl e \<Rightarrow> Inl e
                          | Inr q' \<Rightarrow>
                              Inr [LogScalar ''nll_loss'' (q' / ln 2) n_tokens 3,
                                   LogDerivedPerplexity ''ppl'' ''nll_loss''])
                    else Inr [LogDerivedPerplexity ''ppl'' ''loss''])
              of
                Inl e \<Rightarrow> Inl e
              | Inr ppl \<Rightarrow>
                  (let ncorrect = sum_field logging_outputs ''ncorrect'';
                       nsentences = sum_field logging_outputs ''nsentences''
                   in case py_div (100 * ncorrect) nsentences of
                        Inl e \<Rightarrow> Inl e
                      | Inr accuracy \<Rightarrow>
                          Inr (LogScalar ''loss'' (q / ln 2) sample_size 3 # ppl @
                               [LogScalar ''accuracy'' accuracy nsentences 3]))))"

definition logging_outputs_can_be_summed :: "unit \<Rightarrow> bool" where
  "logging_outputs_can_be_summed u = False"


section \<open>Vocabulary of the statements and example inputs\<close>

text \<open>
  Reading the logged metrics: the value and weight of every scalar logged under a key,
  and the meters from which a derived perplexity under a key is taken.
\<close>

fun logged_scalars :: "string \<Rightarrow> metric list \<Rightarrow> (real \<times> real) list" where
  "logged_scalars key [] = []"
| "logged_scalars key (LogScalar k v w r # ms) =
     (if k = key then (v, w) # logged_scalars key ms else logged_scalars key ms)"
| "logged_scalars key (LogDerivedPerplexity k src # ms) = logged_scalars key ms"

fun derived_from :: "string \<Rightarrow> metric list \<Rightarrow> string list" where
  "derived_from key [] = []"
| "derived_from key (LogScalar k v w r # ms) = derived_from key ms"
| "derived_from key (LogDerivedPerplexity k src # ms) =
     (if k = key then src # derived_from key ms else derived_from key ms)"

text \<open>
  The logits inside a network output, to state what the model's methods are assumed to
  do, and inputs for the examples: a model whose network returns its input tensor as
  logits, takes the logits as they are for log-probabilities and takes the targets of the
  sample; auxiliary losses that are constant; a criterion with the encoder-contrastive
  mode disabled.
\<close>

fun logits_of :: "net_output \<Rightarrow> ndarray" where
  "logits_of (Logits x) = x"
| "logits_of (Aux a h c out l) = l"

definition served_model :: "ndarray model" where
  "served_model =
     \<lparr>call = Logits, get_normalized_probs = logits_of,
      get_targets = (\<lambda>smp net. target smp)\<rparr>"

definition constant_aux :: "real \<Rightarrow> aux_losses" where
  "constant_aux v = \<lparr>mse_loss = (\<lambda>a b. Inr v), supcon_loss = (\<lambda>a b. Inr v)\<rparr>"

definition plain_criterion :: criterion where
  "plain_criterion = \<lparr>encoder_contrastive = False, sentence_avg = True\<rparr>"






text \<open>The lists that \<^verbatim>\<open>torch.stack\<close> accepts.\<close>

definition stackable :: "float32 list list \<Rightarrow> bool" where
  "stackable val \<longleftrightarrow> val \<noteq> [] \<and> list_all (\<lambda>v. length v = length (hd val)) val"







section \<open>Properties of float32\<close>

text \<open>The powers of two are computed by squaring, and the two bounds are numerals.\<close>

lemma pow2_code [code]:
  "pow2 e =
     (if e = 0 then 1
      else if e < 0 then 1 / pow2 (- e)
      else if even e then pow2 (e div 2) * pow2 (e div 2)
      else 2 * (pow2 (e div 2) * pow2 (e div 2)))"
proof -
  have dbl: "pow2 (2 * k) = pow2 k * pow2 k" for k
    by (simp add: pow2_def power_int_add [symmetric] del: power_int_add)
  have odd: "pow2 (2 * k + 1) = 2 * (pow2 k * pow2 k)" for k
    using dbl [of k] by (simp add: pow2_def power_int_add)
  show ?thesis
  proof (cases "e = 0")
    case True
    then show ?thesis by (simp add: pow2_def)
  next
    case ne: False
    show ?thesis
    proof (cases "e < 0")
      case True
      then show ?thesis using ne by (simp add: pow2_def power_int_minus field_simps)
    next
      case False
      show ?thesis
      proof (cases "even e")
        case True
        then obtain k where "e = 2 * k" by (elim evenE)
        with ne False dbl [of k] show ?thesis by simp
      next
        case odd': False
        then obtain k where "e = 2 * k + 1" by (elim oddE)
        with ne False odd [of k] show ?thesis by simp
      qed
    qed
  qed
qed

lemma overflow_threshold_code [code]:
  "overflow_threshold = 340282366920938463463374607431768211456"
  by (simp add: overflow_threshold_def)

lemma smallest_normal_code [code]:
  "smallest_normal = 1 / 85070591730234615865843651857942052864"
  by (simp add: smallest_normal_def power_int_minus field_simps)

text \<open>
  In the normal range the exponent is the integer part of the binary logarithm:
  \<open>\<bar>x\<bar>\<close> lies in the binade that starts at \<open>pow2 (exponent x)\<close>.
\<close>

lemma pow2_nonneg: "0 \<le> e \<Longrightarrow> pow2 e = 2 ^ nat e"
  by (simp add: pow2_def power_int_def)

lemma pow2_neg: "0 \<le> e \<Longrightarrow> pow2 (- e) = 1 / 2 ^ nat e"
  by (simp add: pow2_def power_int_def power_inverse field_simps)

lemma bitlen_pos: "0 < n \<Longrightarrow> 1 \<le> bitlen n"
  using bitlen_bounds [of n] bitlen_nonneg [of n]
  by (cases "bitlen n = 0") auto

lemma exponent_bounds:
  assumes lo: "smallest_normal \<le> \<bar>x\<bar>" and hi: "\<bar>x\<bar> < overflow_threshold"
  shows "pow2 (exponent x) \<le> \<bar>x\<bar> \<and> \<bar>x\<bar> < pow2 (exponent x + 1)"
proof (cases "1 \<le> \<bar>x\<bar>")
  case True
  let ?n = "\<lfloor>\<bar>x\<bar>\<rfloor>"
  from True have n: "0 < ?n" by linarith
  from bitlen_pos [OF n] have b: "0 \<le> bitlen ?n - 1" by simp
  from True lo hi have e: "exponent x = bitlen ?n - 1"
    by (simp add: exponent_def)
  from bitlen_bounds [OF n] have
    l: "(2::int) ^ nat (bitlen ?n - 1) \<le> ?n" and u: "?n < 2 ^ nat (bitlen ?n)" by simp_all
  have "pow2 (bitlen ?n - 1) = of_int (2 ^ nat (bitlen ?n - 1))"
    using b by (simp add: pow2_nonneg)
  also have "\<dots> \<le> of_int ?n" using l by (simp only: of_int_le_iff)
  also have "\<dots> \<le> \<bar>x\<bar>" by simp
  finally have low: "pow2 (bitlen ?n - 1) \<le> \<bar>x\<bar>" .
  have "?n + 1 \<le> 2 ^ nat (bitlen ?n)" using u by simp
  then have "(of_int (?n + 1) :: real) \<le> of_int (2 ^ nat (bitlen ?n))"
    by (simp only: of_int_le_iff)
  moreover have "\<bar>x\<bar> < of_int (?n + 1)" by linarith
  ultimately have "\<bar>x\<bar> < of_int (2 ^ nat (bitlen ?n))" by linarith
  also have "\<dots> = pow2 (bitlen ?n)"
    using b by (simp add: pow2_nonneg)
  finally have up: "\<bar>x\<bar> < pow2 (bitlen ?n - 1 + 1)" by simp
  from low up show ?thesis unfolding e by simp
next
  case False
  let ?y = "1 / \<bar>x\<bar>"
  let ?m = "\<lceil>?y\<rceil> - 1"
  from lo have pos: "0 < \<bar>x\<bar>"
    by (smt (verit) smallest_normal_def zero_less_power_int)
  with False have y1: "1 < ?y" by (simp add: field_simps)
  then have m: "0 < ?m" by linarith
  from bitlen_pos [OF m] have b: "1 \<le> bitlen ?m" .
  from False lo hi have e: "exponent x = - bitlen ?m"
    by (simp add: exponent_def)
  from bitlen_bounds [OF m] have
    l: "(2::int) ^ nat (bitlen ?m - 1) \<le> ?m" and u: "?m < 2 ^ nat (bitlen ?m)" by simp_all
  have my: "of_int ?m < ?y" by linarith
  have ym: "?y \<le> of_int (?m + 1)" by simp
  have "?m + 1 \<le> 2 ^ nat (bitlen ?m)" using u by simp
  then have "(of_int (?m + 1) :: real) \<le> of_int (2 ^ nat (bitlen ?m))"
    by (simp only: of_int_le_iff)
  moreover have "(of_int (2 ^ nat (bitlen ?m)) :: real) = 2 ^ nat (bitlen ?m)" by simp
  ultimately have yu: "?y \<le> 2 ^ nat (bitlen ?m)" using ym by linarith
  have "(of_int (2 ^ nat (bitlen ?m - 1)) :: real) \<le> of_int ?m"
    using l by (simp only: of_int_le_iff)
  moreover have "(of_int (2 ^ nat (bitlen ?m - 1)) :: real) = 2 ^ nat (bitlen ?m - 1)" by simp
  ultimately have yl: "2 ^ nat (bitlen ?m - 1) < ?y" using my by linarith
  have low: "pow2 (- bitlen ?m) \<le> \<bar>x\<bar>"
  proof -
    have "pow2 (- bitlen ?m) = 1 / 2 ^ nat (bitlen ?m)"
      using b by (simp add: pow2_neg)
    also have "\<dots> \<le> \<bar>x\<bar>"
      using yu pos by (simp add: field_simps)
    finally show ?thesis .
  qed
  have up: "\<bar>x\<bar> < pow2 (- bitlen ?m + 1)"
  proof -
    have "\<bar>x\<bar> < 1 / 2 ^ nat (bitlen ?m - 1)"
      using yl pos by (simp add: field_simps)
    also have "\<dots> = pow2 (- (bitlen ?m - 1))"
      using b pow2_neg [of "bitlen ?m - 1"] by simp
    finally show ?thesis by simp
  qed
  from low up show ?thesis unfolding e by simp
qed


lemma float32_of_real_1: "float32_of_real 1 = Finite 1"
  by code_simp

lemma float32_of_real_tenth: "float32_of_real (1 / 10) = Finite (13421773 / 134217728)"
  by code_simp

lemma float32_of_real_third: "float32_of_real (1 / 3) = Finite (11184811 / 33554432)"
  by code_simp

lemma float32_of_real_large: "float32_of_real 100000001 = Finite 100000000"
  by code_simp

lemma float32_of_real_overflow: "float32_of_real (10 ^ 39) = PosInf"
  by code_simp

text \<open>
  The conversion is a rounding to the values it returns: the result is within half a
  unit in the last place of the argument, and a value that the conversion returns is
  converted to itself.
\<close>

lemma round_half_even_error: "\<bar>of_int (round_half_even q) - q\<bar> \<le> 1 / 2"
  unfolding round_half_even_def by (auto; linarith)

lemma round_half_even_of_int: "round_half_even (of_int k) = k"
  by (simp add: round_half_even_def)

lemma round_half_even_ge: "of_int n \<le> q \<Longrightarrow> n \<le> round_half_even q"
  unfolding round_half_even_def by (auto; linarith)

lemma round_half_even_le: "q \<le> of_int n \<Longrightarrow> round_half_even q \<le> n"
proof (cases "q = of_int \<lfloor>q\<rfloor>")
  case True
  assume "q \<le> of_int n"
  then have "\<lfloor>q\<rfloor> \<le> n" by linarith
  moreover have "round_half_even q = \<lfloor>q\<rfloor>"
    using True round_half_even_of_int [of "\<lfloor>q\<rfloor>"] by simp
  ultimately show ?thesis by simp
next
  case False
  assume "q \<le> of_int n"
  with False have "\<lfloor>q\<rfloor> + 1 \<le> n" by linarith
  moreover have "round_half_even q \<le> \<lfloor>q\<rfloor> + 1"
    by (simp add: round_half_even_def)
  ultimately show ?thesis by linarith
qed

lemma pow2_pos: "0 < pow2 e"
  by (simp add: pow2_def)

lemma pow2_add: "pow2 (a + b) = pow2 a * pow2 b"
  by (simp add: pow2_def power_int_add)

lemma pow2_less_iff: "pow2 a < pow2 b \<longleftrightarrow> a < b"
proof
  assume l: "pow2 a < pow2 b"
  show "a < b"
  proof (rule ccontr)
    assume "\<not> a < b"
    then have "b \<le> a" by simp
    then have "pow2 b \<le> pow2 a"
      unfolding pow2_def by (rule power_int_increasing) simp
    with l show False by simp
  qed
next
  assume "a < b"
  then show "pow2 a < pow2 b"
    unfolding pow2_def by (rule power_int_strict_increasing) simp
qed

lemma pow2_le_iff: "pow2 a \<le> pow2 b \<longleftrightarrow> a \<le> b"
  using pow2_less_iff [of b a] by (simp add: not_less [symmetric])

lemma smallest_normal_pow2: "smallest_normal = pow2 (- 126)"
  by (simp add: smallest_normal_def pow2_def)

lemma overflow_threshold_pow2: "overflow_threshold = pow2 128"
  by (simp add: overflow_threshold_def pow2_def)

lemma exponent_unique:
  assumes lo: "pow2 e \<le> \<bar>x\<bar>" and hi: "\<bar>x\<bar> < pow2 (e + 1)"
    and e: "- 126 \<le> e" "e \<le> 127"
  shows "exponent x = e"
proof -
  have "smallest_normal \<le> pow2 e"
    using e by (simp add: smallest_normal_pow2 pow2_le_iff)
  with lo have n: "smallest_normal \<le> \<bar>x\<bar>" by linarith
  have "pow2 (e + 1) \<le> overflow_threshold"
    using e by (simp add: overflow_threshold_pow2 pow2_le_iff)
  with hi have o: "\<bar>x\<bar> < overflow_threshold" by linarith
  from exponent_bounds [OF n o] have
    l: "pow2 (exponent x) \<le> \<bar>x\<bar>" and u: "\<bar>x\<bar> < pow2 (exponent x + 1)" by simp_all
  from lo u have "pow2 e < pow2 (exponent x + 1)" by linarith
  then have "e < exponent x + 1" by (simp only: pow2_less_iff)
  moreover from l hi have "pow2 (exponent x) < pow2 (e + 1)" by linarith
  then have "exponent x < e + 1" by (simp only: pow2_less_iff)
  ultimately show ?thesis by linarith
qed

lemma exponent_range: "- 126 \<le> exponent x \<and> exponent x \<le> 127"
proof (cases "smallest_normal \<le> \<bar>x\<bar> \<and> \<bar>x\<bar> < overflow_threshold")
  case True
  then have n: "smallest_normal \<le> \<bar>x\<bar>" and o: "\<bar>x\<bar> < overflow_threshold" by simp_all
  from exponent_bounds [OF n o] have
    l: "pow2 (exponent x) \<le> \<bar>x\<bar>" and u: "\<bar>x\<bar> < pow2 (exponent x + 1)" by simp_all
  from n u have "pow2 (- 126) < pow2 (exponent x + 1)"
    by (simp add: smallest_normal_pow2)
  then have "- 126 < exponent x + 1" by (simp only: pow2_less_iff)
  moreover from l o have "pow2 (exponent x) < pow2 128"
    by (simp add: overflow_threshold_pow2)
  then have "exponent x < 128" by (simp only: pow2_less_iff)
  ultimately show ?thesis by linarith
next
  case False
  then show ?thesis by (auto simp: exponent_def)
qed

lemma float32_of_real_Finite:
  assumes "float32_of_real x = Finite r"
  shows "r = of_int (round_half_even (x / pow2 (exponent x - 23))) * pow2 (exponent x - 23)"
    and "\<bar>r\<bar> < overflow_threshold"
  using assms by (auto simp: float32_of_real_def Let_def split: if_splits)

lemma float32_of_real_error:
  assumes "float32_of_real x = Finite r"
  shows "\<bar>r - x\<bar> \<le> pow2 (exponent x - 23) / 2"
proof -
  let ?u = "pow2 (exponent x - 23)"
  let ?k = "round_half_even (x / ?u)"
  have u: "0 < ?u" by (rule pow2_pos)
  have r: "r = of_int ?k * ?u" by (rule float32_of_real_Finite(1) [OF assms])
  have "r - x = (of_int ?k - x / ?u) * ?u"
    using u by (simp add: r left_diff_distrib)
  then have "\<bar>r - x\<bar> = \<bar>of_int ?k - x / ?u\<bar> * \<bar>?u\<bar>"
    by (simp only: abs_mult)
  also have "\<dots> = \<bar>of_int ?k - x / ?u\<bar> * ?u"
    using u by simp
  also have "\<dots> \<le> 1 / 2 * ?u"
    using u round_half_even_error [of "x / ?u"] by (intro mult_right_mono) simp_all
  finally show ?thesis by simp
qed

lemma float32_of_real_grid:
  assumes e: "exponent (of_int k * pow2 (e - 23)) = e"
    and o: "\<bar>of_int k * pow2 (e - 23)\<bar> < overflow_threshold"
  shows "float32_of_real (of_int k * pow2 (e - 23)) = Finite (of_int k * pow2 (e - 23))"
proof -
  have "0 < pow2 (e - 23)" by (rule pow2_pos)
  then have "of_int k * pow2 (e - 23) / pow2 (e - 23) = of_int k" by simp
  moreover from o have "\<not> overflow_threshold \<le> of_int k * pow2 (e - 23)"
    and "\<not> of_int k * pow2 (e - 23) \<le> - overflow_threshold"
    by linarith+
  ultimately show ?thesis
    by (simp add: float32_of_real_def Let_def e round_half_even_of_int)
qed

lemma round_half_even_abs_le:
  assumes "\<bar>q\<bar> \<le> of_int n"
  shows "\<bar>round_half_even q\<bar> \<le> n"
proof -
  from assms have a: "q \<le> of_int n" and b: "of_int (- n) \<le> q" by simp_all
  from a have "round_half_even q \<le> n" by (rule round_half_even_le)
  moreover from b have "- n \<le> round_half_even q" by (rule round_half_even_ge)
  ultimately show ?thesis by linarith
qed

lemma round_half_even_abs_ge:
  assumes "of_int n \<le> \<bar>q\<bar>"
  shows "n \<le> \<bar>round_half_even q\<bar>"
proof (cases "0 \<le> q")
  case True
  with assms have "of_int n \<le> q" by simp
  then have "n \<le> round_half_even q" by (rule round_half_even_ge)
  then show ?thesis by linarith
next
  case False
  with assms have "q \<le> of_int (- n)" by simp
  then have "round_half_even q \<le> - n" by (rule round_half_even_le)
  then show ?thesis by linarith
qed

lemma float32_of_real_idem:
  assumes fin: "float32_of_real x = Finite r"
  shows "float32_of_real r = Finite r"
proof -
  let ?e = "exponent x"
  let ?u = "pow2 (?e - 23)"
  let ?q = "x / ?u"
  let ?k = "round_half_even ?q"
  have u: "0 < ?u" by (rule pow2_pos)
  have r: "r = of_int ?k * ?u" and o: "\<bar>r\<bar> < overflow_threshold"
    by (rule float32_of_real_Finite [OF fin])+
  have absr: "\<bar>r\<bar> = of_int \<bar>?k\<bar> * ?u"
    using u by (simp add: r abs_mult)
  have absq: "\<bar>?q\<bar> = \<bar>x\<bar> / ?u"
    using u by simp
  have range: "- 126 \<le> ?e" "?e \<le> 127"
    using exponent_range [of x] by simp_all
  have p23: "pow2 ?e = 8388608 * ?u"
    using pow2_add [of 23 "?e - 23"] by (simp add: pow2_nonneg)
  have p24: "pow2 (?e + 1) = 16777216 * ?u"
    using pow2_add [of 24 "?e - 23"] by (simp add: pow2_nonneg add.commute)
  have same: "float32_of_real r = Finite r" if "exponent r = ?e"
    using float32_of_real_grid [of ?k ?e] that o unfolding r [symmetric] by simp
  consider (sub) "\<bar>x\<bar> < smallest_normal"
    | (normal) "smallest_normal \<le> \<bar>x\<bar>" "\<bar>x\<bar> < overflow_threshold"
    | (over) "overflow_threshold \<le> \<bar>x\<bar>"
    by linarith
  then show ?thesis
  proof cases
    case sub
    then have e: "?e = - 126" by (simp add: exponent_def)
    from sub have "\<bar>x\<bar> < 8388608 * ?u"
      using p23 by (simp add: e smallest_normal_pow2)
    then have "\<bar>?q\<bar> \<le> of_int 8388608"
      using u by (simp add: absq field_simps)
    then have k: "\<bar>?k\<bar> \<le> 8388608" by (rule round_half_even_abs_le)
    then have "(of_int \<bar>?k\<bar> :: real) \<le> of_int 8388608" by (simp only: of_int_le_iff)
    then have "\<bar>r\<bar> \<le> 8388608 * ?u"
      using u by (simp add: absr)
    then have le: "\<bar>r\<bar> \<le> pow2 (- 126)"
      using p23 by (simp add: e)
    have "exponent r = - 126"
    proof (cases "\<bar>r\<bar> < smallest_normal")
      case True
      then show ?thesis by (simp add: exponent_def)
    next
      case False
      with le have "pow2 (- 126) \<le> \<bar>r\<bar>" by (simp add: smallest_normal_pow2)
      moreover have "pow2 (- 126) < pow2 (- 126 + 1)" by (simp only: pow2_less_iff)
      with le have "\<bar>r\<bar> < pow2 (- 126 + 1)" by linarith
      ultimately show ?thesis by (rule exponent_unique) simp_all
    qed
    then show ?thesis using same e by simp
  next
    case normal
    from exponent_bounds [OF normal] have
      l: "pow2 ?e \<le> \<bar>x\<bar>" and h: "\<bar>x\<bar> < pow2 (?e + 1)" by simp_all
    from l have "8388608 * ?u \<le> \<bar>x\<bar>" by (simp only: p23)
    then have "of_int 8388608 \<le> \<bar>?q\<bar>"
      using u by (simp add: absq field_simps)
    then have klo: "8388608 \<le> \<bar>?k\<bar>" by (rule round_half_even_abs_ge)
    from h have "\<bar>x\<bar> < 16777216 * ?u" by (simp only: p24)
    then have "\<bar>?q\<bar> \<le> of_int 16777216"
      using u by (simp add: absq field_simps)
    then have khi: "\<bar>?k\<bar> \<le> 16777216" by (rule round_half_even_abs_le)
    from klo have "(of_int 8388608 :: real) \<le> of_int \<bar>?k\<bar>" by (simp only: of_int_le_iff)
    then have rlo: "pow2 ?e \<le> \<bar>r\<bar>"
      using u by (simp add: absr p23)
    show ?thesis
    proof (cases "\<bar>?k\<bar> = 16777216")
      case False
      with khi have "\<bar>?k\<bar> < 16777216" by simp
      then have "(of_int \<bar>?k\<bar> :: real) < of_int 16777216" by (simp only: of_int_less_iff)
      then have "\<bar>r\<bar> < pow2 (?e + 1)"
        using u by (simp add: absr p24)
      with rlo have "exponent r = ?e" using range by (rule exponent_unique)
      then show ?thesis by (rule same)
    next
      case True
      then have top: "\<bar>r\<bar> = pow2 (?e + 1)"
        by (simp add: absr p24)
      have e: "?e + 1 \<le> 127"
      proof (rule ccontr)
        assume "\<not> ?e + 1 \<le> 127"
        with range have "?e + 1 = 128" by simp
        with top o show False by (simp add: overflow_threshold_pow2)
      qed
      have "pow2 (?e + 1) < pow2 (?e + 1 + 1)" by (simp only: pow2_less_iff)
      with top have "\<bar>r\<bar> < pow2 (?e + 1 + 1)" by simp
      moreover from top have "pow2 (?e + 1) \<le> \<bar>r\<bar>" by simp
      ultimately have er: "exponent r = ?e + 1"
        using range e by (intro exponent_unique) simp_all
      from True have even: "?k = 2 * (?k div 2)" by presburger
      have "pow2 (?e + 1 - 23) = 2 * ?u"
        using pow2_add [of 1 "?e - 23"] by (simp add: pow2_def)
      then have r': "r = of_int (?k div 2) * pow2 (?e + 1 - 23)"
        using even by (simp add: r)
      from float32_of_real_grid [of "?k div 2" "?e + 1"] er o show ?thesis
        unfolding r' [symmetric] by simp
    qed
  next
    case over
    then have e: "?e = 127"
      by (simp add: exponent_def smallest_normal_def overflow_threshold_def)
    from over have "16777216 * ?u \<le> \<bar>x\<bar>"
      using p24 by (simp add: e overflow_threshold_pow2)
    then have "of_int 16777216 \<le> \<bar>?q\<bar>"
      using u by (simp add: absq field_simps)
    then have "16777216 \<le> \<bar>?k\<bar>" by (rule round_half_even_abs_ge)
    then have "(of_int 16777216 :: real) \<le> of_int \<bar>?k\<bar>" by (simp only: of_int_le_iff)
    then have "pow2 (?e + 1) \<le> \<bar>r\<bar>"
      using u by (simp add: absr p24)
    with o show ?thesis by (simp add: e overflow_threshold_pow2)
  qed
qed

section \<open>Properties of collate\_fn\<close>

lemma collate_fn_empty: "collate_fn [] = Inl ValueError"
  by (simp add: collate_fn_def)

lemma map2_append_upt:
  "map2 (@) (map f [0..<j]) (replicate j z) = map (\<lambda>r. f r @ z) [0..<j]"
  by (rule nth_equalityI) auto

lemma padded_example_Inr:
  "padded_example max_len x = Inr t \<longleftrightarrow>
     int (shape1 x) \<le> max_len \<and>
     t = map (\<lambda>r. map (item x r) [0..<shape1 x] @ replicate (nat max_len - shape1 x) 0) [0..<shape0 x]"
  by (auto simp: padded_example_def torch_zeros2_def torch_cat_dim1_def from_numpy_def
      map2_append_upt nat_diff_distrib)


lemma padded_example_ok:
  "int (shape1 x) \<le> max_len \<Longrightarrow>
     padded_example max_len x =
       Inr (map (\<lambda>r. map (item x r) [0..<shape1 x] @ replicate (nat max_len - shape1 x) 0)
              [0..<shape0 x])"
  by (simp add: padded_example_Inr)


lemma feature_block_ok:
  "int (shape1 x) \<le> max_len \<Longrightarrow>
     feature_block n_ftrs max_len x =
       (if shape0 x = n_ftrs then Inr (map (padded_row max_len x) [0..<n_ftrs])
        else if shape0 x = 1 then Inr (replicate n_ftrs (padded_row max_len x 0))
        else Inl RuntimeError)"
  by (simp add: feature_block_def padded_example_ok setitem_rows_def padded_row_def comp_def)



lemma collate_loop_Inr:
  assumes "collate_loop data n_ftrs max_len is st = Inr st'"
    and "distinct is"
  shows "length (fst st') = length (fst st) \<and> length (snd st') = length (snd st) \<and>
     (\<forall>i. i \<in> set is \<longrightarrow> i < length (fst st) \<longrightarrow> i < length (snd st) \<longrightarrow>
        feature_block n_ftrs max_len (datum_example (data ! i)) = Inr (fst st' ! i) \<and>
        snd st' ! i = slice_assign (shape1 (datum_example (data ! i))) 1 (snd st ! i)) \<and>
     (\<forall>i. i \<notin> set is \<longrightarrow> fst st' ! i = fst st ! i \<and> snd st' ! i = snd st ! i)"
  using assms
proof (induction "is" arbitrary: st)
  case Nil
  then show ?case by simp
next
  case (Cons i "is")
  let ?x = "datum_example (data ! i)"
  from Cons.prems(1) obtain blk where blk: "feature_block n_ftrs max_len ?x = Inr blk"
    and rest: "collate_loop data n_ftrs max_len is
      ((fst st)[i := blk], (snd st)[i := slice_assign (shape1 ?x) 1 (snd st ! i)]) = Inr st'"
    by (auto simp: Let_def split: sum.splits)
  from Cons.prems(2) have i: "i \<notin> set is" and d: "distinct is" by simp_all
  note IH = Cons.IH [OF rest d, simplified]
  show ?case
  proof (intro conjI allI impI)
    show "length (fst st') = length (fst st)" using IH by simp
    show "length (snd st') = length (snd st)" using IH by simp
  next
    fix j assume j: "j \<in> set (i # is)" "j < length (fst st)" "j < length (snd st)"
    show "feature_block n_ftrs max_len (datum_example (data ! j)) = Inr (fst st' ! j)"
    proof (cases "j = i")
      case True
      with IH i j blk show ?thesis by simp
    next
      case False
      with IH j show ?thesis by simp
    qed
    show "snd st' ! j = slice_assign (shape1 (datum_example (data ! j))) 1 (snd st ! j)"
    proof (cases "j = i")
      case True
      with IH i j show ?thesis by simp
    next
      case False
      with IH j show ?thesis by simp
    qed
  next
    fix j assume "j \<notin> set (i # is)"
    then have "j \<notin> set is" "j \<noteq> i" by auto
    with IH show "fst st' ! j = fst st ! j" by simp
  next
    fix j assume "j \<notin> set (i # is)"
    then have "j \<notin> set is" "j \<noteq> i" by auto
    with IH show "snd st' ! j = snd st ! j" by simp
  qed
qed

lemma collate_loop_total:
  assumes "\<forall>i\<in>set is. \<exists>blk. feature_block n_ftrs max_len (datum_example (data ! i)) = Inr blk"
  shows "\<exists>st'. collate_loop data n_ftrs max_len is st = Inr st'"
  using assms
  by (induction "is" arbitrary: st) (auto simp: Let_def split: sum.splits)

lemma py_max_Inr: "py_max xs = Inr m \<longleftrightarrow> xs \<noteq> [] \<and> m = Max (set xs)"
  by (cases xs) (auto simp: Max.set_eq_fold [symmetric] simp del: list.set)


lemma collate_fn_Inr:
  assumes ok: "collate_fn data = Inr (ids, features, labels, lengths)"
  shows "data \<noteq> []"
    and "0 \<le> Max (set (map datum_length data))"
    and "ids = map datum_id data"
    and "labels = map datum_label data"
    and "length features = length data"
    and "length lengths = length data"
    and "\<And>i. i < length data \<Longrightarrow>
           feature_block (shape0 (datum_example (hd data))) (Max (set (map datum_length data)))
             (datum_example (data ! i)) = Inr (features ! i)"
    and "\<And>i. i < length data \<Longrightarrow>
           lengths ! i = map long (slice_assign (shape1 (datum_example (data ! i))) 1
             (replicate (nat (Max (set (map datum_length data)))) 0))"
proof -
  let ?ml = "Max (set (map datum_length data))"
  let ?nf = "shape0 (datum_example (hd data))"
  from ok obtain m where m: "py_max (map datum_length data) = Inr m"
    by (auto simp: collate_fn_def split: sum.splits)
  then have ne: "data \<noteq> []" and mm: "m = ?ml" by (auto simp: py_max_Inr)
  from ok m mm have nonneg: "0 \<le> ?ml"
    by (auto simp: collate_fn_def torch_zeros2_def Let_def split: sum.splits if_splits)
  let ?f0 = "replicate (length data) (replicate ?nf (replicate (nat ?ml) (Finite 0)))"
  let ?l0 = "replicate (length data) (replicate (nat ?ml) (0::real))"
  from ok m mm nonneg obtain st where
    loop: "collate_loop data ?nf ?ml [0..<length data] (?f0, ?l0) = Inr st"
    and res: "ids = map datum_id data" "features = fst st" "labels = map datum_label data"
      "lengths = map (map long) (snd st)"
    by (auto simp: collate_fn_def torch_zeros2_def torch_zeros3_def Let_def split: sum.splits)
  note L = collate_loop_Inr [OF loop distinct_upt, simplified]
  show "data \<noteq> []" by (rule ne)
  show "0 \<le> ?ml" by (rule nonneg)
  show "ids = map datum_id data" "labels = map datum_label data" by (rule res)+
  show "length features = length data" using L res by simp
  show "length lengths = length data" using L res by simp
  show "feature_block ?nf ?ml (datum_example (data ! i)) = Inr (features ! i)"
    if "i < length data" for i using L res that by simp
  show "lengths ! i = map long (slice_assign (shape1 (datum_example (data ! i))) 1
             (replicate (nat ?ml) 0))"
    if "i < length data" for i using L res that by simp
qed

lemma length_padded_row:
  "int (shape1 x) \<le> max_len \<Longrightarrow> length (padded_row max_len x r) = nat max_len"
  by (simp add: padded_row_def)






text \<open>
  \<open>collate_fn\<close> returns whenever every example has as many feature rows as the first and
  no example has more columns than the largest length field of the batch.
\<close>


lemma collate_fn_returns:
  assumes ne: "data \<noteq> []"
    and rows: "\<forall>d \<in> set data. shape0 (datum_example d) = shape0 (datum_example (hd data))"
    and cols: "\<forall>d \<in> set data. int (shape1 (datum_example d)) \<le> Max (set (map datum_length data))"
  shows "\<exists>ids features labels lengths.
     collate_fn data = Inr (ids, features, labels, lengths) \<and>
     length features = length data \<and>
     (\<forall>blk \<in> set features. length blk = shape0 (datum_example (hd data)) \<and>
        (\<forall>row \<in> set blk. int (length row) = Max (set (map datum_length data))))"
proof -
  let ?ml = "Max (set (map datum_length data))"
  let ?nf = "shape0 (datum_example (hd data))"
  have m: "py_max (map datum_length data) = Inr ?ml"
    using ne by (simp add: py_max_Inr)
  from ne cols have "int (shape1 (datum_example (hd data))) \<le> ?ml" by simp
  then have nonneg: "0 \<le> ?ml" by linarith
  have each: "feature_block ?nf ?ml (datum_example (data ! i)) =
      Inr (map (padded_row ?ml (datum_example (data ! i))) [0..<?nf])" if "i < length data" for i
    using that rows cols by (simp add: feature_block_ok)
  then have "\<forall>i \<in> set [0..<length data].
      \<exists>blk. feature_block ?nf ?ml (datum_example (data ! i)) = Inr blk"
    by simp
  from collate_loop_total [OF this] obtain st where
    "collate_loop data ?nf ?ml [0..<length data]
       (replicate (length data) (replicate ?nf (replicate (nat ?ml) (Finite 0))),
        replicate (length data) (replicate (nat ?ml) 0)) = Inr st"
    by blast
  with m nonneg have ok: "collate_fn data =
      Inr (map datum_id data, fst st, map datum_label data, map (map long) (snd st))"
    by (simp add: collate_fn_def torch_zeros2_def torch_zeros3_def Let_def)
  have len: "length (fst st) = length data" by (rule collate_fn_Inr(5) [OF ok])
  have shape: "length blk = ?nf \<and> (\<forall>row \<in> set blk. int (length row) = ?ml)"
    if "blk \<in> set (fst st)" for blk
  proof -
    from that len obtain i where i: "i < length data" "blk = fst st ! i"
      by (auto simp: in_set_conv_nth)
    from collate_fn_Inr(7) [OF ok i(1)] each [OF i(1)] i(2)
    have "blk = map (padded_row ?ml (datum_example (data ! i))) [0..<?nf]" by simp
    moreover have "int (shape1 (datum_example (data ! i))) \<le> ?ml" using cols i(1) by simp
    ultimately show ?thesis using nonneg by (auto simp: length_padded_row)
  qed
  show ?thesis using ok len shape by blast
qed

lemma Max_length_fields:
  assumes ne: "data \<noteq> []"
    and lens: "\<forall>d \<in> set data. datum_length d = int (shape1 (datum_example d))"
  shows "Max (set (map datum_length data)) =
     int (Max ((\<lambda>d. shape1 (datum_example d)) ` set data))"
proof -
  have "set (map datum_length data) = int ` (\<lambda>d. shape1 (datum_example d)) ` set data"
    using lens by (auto simp: image_iff)
  moreover have "Max (int ` (\<lambda>d. shape1 (datum_example d)) ` set data) =
      int (Max ((\<lambda>d. shape1 (datum_example d)) ` set data))"
    using ne by (intro mono_Max_commute [symmetric]) (auto simp: mono_def)
  ultimately show ?thesis by simp
qed

text \<open>
  Claim C10. For every non-empty batch of tuples as \<^verbatim>\<open>MyDataset.__getitem__\<close> builds
  them, the length field being the number of columns of the example, in which every
  example has as many feature rows as the first: \<open>collate_fn\<close> returns, and \<open>features\<close>
  has the shape (batch size, that row count, largest number of columns of an example).
\<close>

theorem collate_fn_total:
  assumes ne: "data \<noteq> []"
    and rows: "\<forall>d \<in> set data. shape0 (datum_example d) = shape0 (datum_example (hd data))"
    and lens: "\<forall>d \<in> set data. datum_length d = int (shape1 (datum_example d))"
  shows "\<exists>ids features labels lengths.
     collate_fn data = Inr (ids, features, labels, lengths) \<and>
     length features = length data \<and>
     (\<forall>blk \<in> set features. length blk = shape0 (datum_example (hd data)) \<and>
        (\<forall>row \<in> set blk. length row = Max ((\<lambda>d. shape1 (datum_example d)) ` set data)))"
proof -
  let ?ml = "Max (set (map datum_length data))"
  have ml: "?ml = int (Max ((\<lambda>d. shape1 (datum_example d)) ` set data))"
    by (rule Max_length_fields [OF ne lens])
  have cols: "\<forall>d \<in> set data. int (shape1 (datum_example d)) \<le> ?ml"
    using lens by (auto simp: datum_length_def intro!: Max_ge)
  from collate_fn_returns [OF ne rows cols] show ?thesis
    unfolding ml by simp
qed

theorem collate_fn_total_witness:
  "\<exists>ids features labels lengths.
     collate_fn [(''a'', np_array [[1, 2], [3, 4]], 0, 2), (''b'', np_array [[5], [6]], 1, 1)] =
       Inr (ids, features, labels, lengths) \<and>
     length features = 2 \<and> list_all (\<lambda>blk. length blk = 2 \<and> list_all (\<lambda>row. length row = 2) blk) features"
proof -
  let ?B = "[(''a'', np_array [[1, 2], [3, 4]], 0, 2), (''b'', np_array [[5], [6]], 1::int, 1::int)]"
  have ne: "?B \<noteq> []" by simp
  have rows: "\<forall>d \<in> set ?B. shape0 (datum_example d) = shape0 (datum_example (hd ?B))"
    by (simp add: datum_example_def np_array_def)
  have lens: "\<forall>d \<in> set ?B. datum_length d = int (shape1 (datum_example d))"
    by (simp add: datum_example_def datum_length_def np_array_def)
  have mx: "Max ((\<lambda>d. shape1 (datum_example d)) ` set ?B) = 2"
    by (simp add: datum_example_def np_array_def)
  from collate_fn_total [OF ne rows lens] show ?thesis
    unfolding mx by (auto simp: datum_example_def np_array_def list_all_iff)
qed

section \<open>Properties of the save path\<close>

lemma rfind_last:
  assumes "c \<notin> set file"
  shows "rfind (dir @ c # file) c = int (length dir)"
proof -
  have "takeWhile (\<lambda>x. x \<noteq> c) (rev file @ c # rev dir) = rev file"
    using assms by (subst takeWhile_append2) auto
  then show ?thesis by (simp add: rfind_def)
qed

text \<open>
  A path with a slash is cut at its last slash: the profile is written beside the
  checkpoint.
\<close>

lemma save_path_dirname:
  assumes "CHR ''/'' \<notin> set file"
  shows "save_path (dir @ ''/'' @ file) = dir @ ''/profile.pt''"
  using rfind_last [OF assms, of dir] by (simp add: save_path_def slice_to_def)

lemma save_path_dirname_example:
  "save_path (''ckpt/run1'' @ ''/'' @ ''model.pt'') = ''ckpt/run1'' @ ''/profile.pt''"
  by (rule save_path_dirname) simp

text \<open>
  A path without a slash: \<^verbatim>\<open>rfind\<close> gives \<open>-1\<close> and the slice drops the last
  character of the file name.
\<close>

lemma save_path_no_slash:
  assumes "CHR ''/'' \<notin> set path"
  shows "save_path path = butlast path @ ''/profile.pt''"
proof -
  have "nat (int (length path) - 1) = length path - 1" by arith
  with assms show ?thesis
    by (simp add: save_path_def slice_to_def rfind_def butlast_conv_take)
qed

text \<open>
  Claim C7 at the checkpoint path \<^verbatim>\<open>model.pt\<close>, a file of the working directory: the
  save path is \<^verbatim>\<open>model.p/profile.pt\<close>, which is not in the directory of the
  checkpoint.
\<close>

theorem save_path_without_slash: "save_path ''model.pt'' = ''model.p/profile.pt''"
  by code_simp

section \<open>Properties of the metrics\<close>

text \<open>
  Claim C8. \<open>logging_outputs_can_be_summed\<close> returns False at every call: the logging
  outputs of the workers are not to be summed before \<open>reduce_metrics\<close>.
\<close>

theorem logging_outputs_never_summed: "logging_outputs_can_be_summed u = False"
  by (simp add: logging_outputs_can_be_summed_def)

text \<open>
  \<open>reduce_metrics\<close> returns exactly when the three sums it divides by are not zero, and
  then logs these metrics in this order.
\<close>

lemma reduce_metrics_Inr:
  "reduce_metrics logs = Inr ms \<longleftrightarrow>
     sum_field logs ''sample_size'' \<noteq> 0 \<and> sum_field logs ''ntokens'' \<noteq> 0 \<and>
     sum_field logs ''nsentences'' \<noteq> 0 \<and>
     ms = LogScalar ''loss'' (sum_field logs ''loss'' / sum_field logs ''sample_size'' / ln 2)
            (sum_field logs ''sample_size'') 3 #
          (if sum_field logs ''sample_size'' \<noteq> sum_field logs ''ntokens''
           then [LogScalar ''nll_loss'' (sum_field logs ''loss'' / sum_field logs ''ntokens'' / ln 2)
                   (sum_field logs ''ntokens'') 3,
                 LogDerivedPerplexity ''ppl'' ''nll_loss'']
           else [LogDerivedPerplexity ''ppl'' ''loss'']) @
          [LogScalar ''accuracy'' (100 * sum_field logs ''ncorrect'' / sum_field logs ''nsentences'')
             (sum_field logs ''nsentences'') 3]"
  by (auto simp: reduce_metrics_def Let_def py_div_def split: sum.splits if_splits)

lemma sum_field_present:
  assumes "\<forall>d \<in> set logs. d key \<noteq> None"
  shows "sum_field logs key = (\<Sum>d\<leftarrow>logs. the (d key))"
proof -
  have "map (\<lambda>d. log_get d key) logs = map (\<lambda>d. the (d key)) logs"
    using assms by (auto simp: log_get_def)
  then show ?thesis unfolding sum_field_def by (rule arg_cong)
qed

text \<open>
  Claim C4. For logging records that all hold \<open>ncorrect\<close> and \<open>nsentences\<close>, when
  \<open>reduce_metrics\<close> returns it has logged one accuracy, of value 100 times the sum of
  \<open>ncorrect\<close> over the sum of \<open>nsentences\<close> (and of weight the sum of \<open>nsentences\<close>).
\<close>

theorem reduce_metrics_accuracy:
  assumes fields: "\<forall>d \<in> set logs. d ''ncorrect'' \<noteq> None \<and> d ''nsentences'' \<noteq> None"
    and ok: "reduce_metrics logs = Inr ms"
  shows "logged_scalars ''accuracy'' ms =
     [(100 * (\<Sum>d\<leftarrow>logs. the (d ''ncorrect'')) / (\<Sum>d\<leftarrow>logs. the (d ''nsentences'')),
       (\<Sum>d\<leftarrow>logs. the (d ''nsentences'')))]"
proof -
  from fields have nc: "sum_field logs ''ncorrect'' = (\<Sum>d\<leftarrow>logs. the (d ''ncorrect''))"
    by (intro sum_field_present) simp
  from fields have ns: "sum_field logs ''nsentences'' = (\<Sum>d\<leftarrow>logs. the (d ''nsentences''))"
    by (intro sum_field_present) simp
  from ok show ?thesis
    unfolding reduce_metrics_Inr nc ns by auto
qed

theorem reduce_metrics_accuracy_witness:
  "reduce_metrics
     [map_of [(''loss'', 2), (''ntokens'', 8), (''nsentences'', 2), (''sample_size'', 2), (''ncorrect'', 1)],
      map_of [(''loss'', 4), (''ntokens'', 8), (''nsentences'', 2), (''sample_size'', 2), (''ncorrect'', 2)]] =
     Inr [LogScalar ''loss'' (6 / 4 / ln 2) 4 3, LogScalar ''nll_loss'' (6 / 16 / ln 2) 16 3,
          LogDerivedPerplexity ''ppl'' ''nll_loss'', LogScalar ''accuracy'' 75 4 3] \<and>
   logged_scalars ''accuracy''
     [LogScalar ''loss'' (6 / 4 / ln 2) 4 3, LogScalar ''nll_loss'' (6 / 16 / ln 2) 16 3,
      LogDerivedPerplexity ''ppl'' ''nll_loss'', LogScalar ''accuracy'' 75 4 3] =
     [(100 * (1 + 2) / (2 + 2), 2 + 2)]"
proof -
  let ?logs = "[map_of [(''loss'', 2), (''ntokens'', 8), (''nsentences'', 2), (''sample_size'', 2), (''ncorrect'', 1::real)],
      map_of [(''loss'', 4), (''ntokens'', 8), (''nsentences'', 2), (''sample_size'', 2), (''ncorrect'', 2)]]"
  have ev: "reduce_metrics ?logs =
     Inr [LogScalar ''loss'' (6 / 4 / ln 2) 4 3, LogScalar ''nll_loss'' (6 / 16 / ln 2) 16 3,
          LogDerivedPerplexity ''ppl'' ''nll_loss'', LogScalar ''accuracy'' 75 4 3]"
    by (simp add: reduce_metrics_Inr sum_field_def log_get_def)
  have fields: "\<forall>d \<in> set ?logs. d ''ncorrect'' \<noteq> None \<and> d ''nsentences'' \<noteq> None"
    by simp
  from reduce_metrics_accuracy [OF fields ev] ev show ?thesis by simp
qed

text \<open>
  Claim C6. When \<open>reduce_metrics\<close> returns: if the summed \<open>sample_size\<close> differs from
  the summed \<open>ntokens\<close>, one \<open>nll_loss\<close> is logged, the summed loss over the summed
  \<open>ntokens\<close> in base 2 with the summed \<open>ntokens\<close> as weight, and the perplexity is
  derived from the meter \<open>nll_loss\<close>; otherwise no \<open>nll_loss\<close> is logged and the
  perplexity is derived from the meter \<open>loss\<close>.
\<close>

theorem reduce_metrics_nll_loss_and_ppl:
  assumes ok: "reduce_metrics logs = Inr ms"
  shows "(sum_field logs ''sample_size'' \<noteq> sum_field logs ''ntokens'' \<longrightarrow>
            logged_scalars ''nll_loss'' ms =
              [(sum_field logs ''loss'' / sum_field logs ''ntokens'' / ln 2,
                sum_field logs ''ntokens'')] \<and>
            derived_from ''ppl'' ms = [''nll_loss'']) \<and>
         (sum_field logs ''sample_size'' = sum_field logs ''ntokens'' \<longrightarrow>
            logged_scalars ''nll_loss'' ms = [] \<and> derived_from ''ppl'' ms = [''loss''])"
  using ok unfolding reduce_metrics_Inr by auto

theorem reduce_metrics_nll_loss_and_ppl_witness:
  "reduce_metrics
     [map_of [(''loss'', 2), (''ntokens'', 8), (''nsentences'', 2), (''sample_size'', 2), (''ncorrect'', 1)],
      map_of [(''loss'', 4), (''ntokens'', 8), (''nsentences'', 2), (''sample_size'', 2), (''ncorrect'', 2)]] =
     Inr [LogScalar ''loss'' (6 / 4 / ln 2) 4 3, LogScalar ''nll_loss'' (6 / 16 / ln 2) 16 3,
          LogDerivedPerplexity ''ppl'' ''nll_loss'', LogScalar ''accuracy'' 75 4 3] \<and>
   logged_scalars ''nll_loss''
     [LogScalar ''loss'' (6 / 4 / ln 2) 4 3, LogScalar ''nll_loss'' (6 / 16 / ln 2) 16 3,
      LogDerivedPerplexity ''ppl'' ''nll_loss'', LogScalar ''accuracy'' 75 4 3] =
     [(6 / 16 / ln 2, 16)] \<and>
   derived_from ''ppl''
     [LogScalar ''loss'' (6 / 4 / ln 2) 4 3, LogScalar ''nll_loss'' (6 / 16 / ln 2) 16 3,
      LogDerivedPerplexity ''ppl'' ''nll_loss'', LogScalar ''accuracy'' 75 4 3] = [''nll_loss''] \<and>
   reduce_metrics
     [map_of [(''loss'', 3), (''ntokens'', 2), (''nsentences'', 2), (''sample_size'', 2), (''ncorrect'', 1)]] =
     Inr [LogScalar ''loss'' (3 / 2 / ln 2) 2 3, LogDerivedPerplexity ''ppl'' ''loss'',
          LogScalar ''accuracy'' 50 2 3] \<and>
   logged_scalars ''nll_loss''
     [LogScalar ''loss'' (3 / 2 / ln 2) 2 3, LogDerivedPerplexity ''ppl'' ''loss'',
      LogScalar ''accuracy'' 50 2 3] = [] \<and>
   derived_from ''ppl''
     [LogScalar ''loss'' (3 / 2 / ln 2) 2 3, LogDerivedPerplexity ''ppl'' ''loss'',
      LogScalar ''accuracy'' 50 2 3] = [''loss'']"
proof -
  let ?logs = "[map_of [(''loss'', 2), (''ntokens'', 8), (''nsentences'', 2), (''sample_size'', 2), (''ncorrect'', 1::real)],
      map_of [(''loss'', 4), (''ntokens'', 8), (''nsentences'', 2), (''sample_size'', 2), (''ncorrect'', 2)]]"
  let ?logs' = "[map_of [(''loss'', 3), (''ntokens'', 2), (''nsentences'', 2), (''sample_size'', 2), (''ncorrect'', 1::real)]]"
  have ev: "reduce_metrics ?logs =
     Inr [LogScalar ''loss'' (6 / 4 / ln 2) 4 3, LogScalar ''nll_loss'' (6 / 16 / ln 2) 16 3,
          LogDerivedPerplexity ''ppl'' ''nll_loss'', LogScalar ''accuracy'' 75 4 3]"
    by (simp add: reduce_metrics_Inr sum_field_def log_get_def)
  have ev': "reduce_metrics ?logs' =
     Inr [LogScalar ''loss'' (3 / 2 / ln 2) 2 3, LogDerivedPerplexity ''ppl'' ''loss'',
          LogScalar ''accuracy'' 50 2 3]"
    by (simp add: reduce_metrics_Inr sum_field_def log_get_def)
  have ne: "sum_field ?logs ''sample_size'' \<noteq> sum_field ?logs ''ntokens''"
    by (simp add: sum_field_def log_get_def)
  have eq: "sum_field ?logs' ''sample_size'' = sum_field ?logs' ''ntokens''"
    by (simp add: sum_field_def log_get_def)
  from reduce_metrics_nll_loss_and_ppl [OF ev] ne reduce_metrics_nll_loss_and_ppl [OF ev'] eq ev ev'
  show ?thesis by (simp add: sum_field_def log_get_def)
qed


section \<open>Properties of the criterion\<close>

text \<open>
  Claim C5. With the encoder-contrastive mode disabled, \<open>compute_loss\<close> returns the
  class-weighted negative log-likelihood of the model's log-probabilities and targets and
  nothing else (or raises what \<open>nll_loss\<close> raises): the result is the same whatever the
  reconstruction and contrastive losses would compute.
\<close>

theorem compute_loss_without_aux:
  assumes "\<not> encoder_contrastive crit"
  shows "compute_loss aux crit m net smp reduce =
       (case nll_loss (get_normalized_probs m net) (get_targets m smp net) reduce class_weight of
          Inl e \<Rightarrow> Inl e
        | Inr l \<Rightarrow>
            Inr (l, map (argmax_row (get_normalized_probs m net))
                      [0..<shape0 (get_normalized_probs m net)],
                 get_targets m smp net)) \<and>
     compute_loss aux crit m net smp reduce = compute_loss aux' crit m net smp reduce"
  using assms by (simp add: compute_loss_def loss_of_def Let_def split: sum.splits)

theorem compute_loss_without_aux_witness:
  "\<not> encoder_contrastive plain_criterion \<and>
   compute_loss (constant_aux 5) plain_criterion served_model
     (Logits (np_array [[- 1, - 2], [- 3, - 1]]))
     \<lparr>net_input = np_zeros 0 0, target = [1, 0], ntokens = 2\<rparr> True =
     Inr (Scalar 17, [0, 1], [1, 0]) \<and>
   compute_loss (constant_aux 5) plain_criterion served_model
     (Logits (np_array [[- 1, - 2], [- 3, - 1]]))
     \<lparr>net_input = np_zeros 0 0, target = [1, 0], ntokens = 2\<rparr> True =
   compute_loss (constant_aux 0) plain_criterion served_model
     (Logits (np_array [[- 1, - 2], [- 3, - 1]]))
     \<lparr>net_input = np_zeros 0 0, target = [1, 0], ntokens = 2\<rparr> True"
proof -
  have plain: "\<not> encoder_contrastive plain_criterion"
    by (simp add: plain_criterion_def)
  have ev: "compute_loss (constant_aux 5) plain_criterion served_model
     (Logits (np_array [[- 1, - 2], [- 3, - 1]]))
     \<lparr>net_input = np_zeros 0 0, target = [1, 0], ntokens = 2\<rparr> True =
     Inr (Scalar 17, [0, 1], [1, 0])"
    by code_simp
  note T = compute_loss_without_aux [OF plain, of "constant_aux 5" served_model
      "Logits (np_array [[- 1, - 2], [- 3, - 1]])"
      "\<lparr>net_input = np_zeros 0 0, target = [1, 0], ntokens = 2\<rparr>" True "constant_aux 0"]
  show ?thesis
    by (intro conjI) (rule plain, rule ev, rule T [THEN conjunct2])
qed

lemma compute_loss_example:
  "compute_loss (constant_aux 5) plain_criterion served_model
     (Logits (np_array [[- 1, - 2], [- 3, - 1]]))
     \<lparr>net_input = np_zeros 0 0, target = [1, 0], ntokens = 2\<rparr> True =
     Inr (Scalar 17, [0, 1], [1, 0])"
  by code_simp








lemma predicts_of_Inr:
  assumes "predicts_of net = Inr predicts"
  shows "\<exists>x. net = Logits x \<and> 2 \<le> shape1 x \<and> length predicts = shape0 x"
proof (cases net)
  case (Logits x)
  with assms show ?thesis
    by (auto simp: Let_def softmax_dim1_def split: if_splits)
next
  case (Aux a h c out l)
  with assms show ?thesis by simp
qed

lemma nll_loss_Inr_rows:
  "nll_loss lp tgt reduce w = Inr l \<Longrightarrow> shape0 lp = length tgt"
  by (simp add: nll_loss_def split: if_splits)

lemma compute_loss_plain_Inr:
  assumes "compute_loss aux crit m net smp reduce = Inr (l, preds, tgt)"
    and "\<not> encoder_contrastive crit"
  shows "tgt = get_targets m smp net \<and> shape0 (get_normalized_probs m net) = length tgt"
  using assms
  by (auto simp: compute_loss_def loss_of_def Let_def split: sum.splits dest: nll_loss_Inr_rows)

text \<open>
  Claim C9. Whenever \<open>forward\<close> returns a logging output, with the mode disabled, for
  a model whose log-probabilities have one row per row of its logits and whose targets are
  the targets of the sample, the lists \<open>predicts\<close> and \<open>targets\<close> of the logging output
  are both as long as \<open>nsentences\<close>; the batch of one example is the case of the witness.
  (A returned logging output implies at least two classes: column 1 is read.)
\<close>

theorem forward_logging_lengths:
  assumes ok: "forward aux crit m smp reduce = Inr (l, ss, lo)"
    and plain: "\<not> encoder_contrastive crit"
    and rows: "shape0 (get_normalized_probs m (call m (net_input smp))) =
                 shape0 (logits_of (call m (net_input smp)))"
    and tgt: "get_targets m smp (call m (net_input smp)) = target smp"
  shows "int (length (lo_predicts lo)) = lo_nsentences lo \<and>
         int (length (lo_targets lo)) = lo_nsentences lo"
proof -
  let ?net = "call m (net_input smp)"
  from ok obtain l' preds tgt' predicts where
    cl: "compute_loss aux crit m ?net smp reduce = Inr (l', preds, tgt')"
    and pr: "predicts_of ?net = Inr predicts"
    and lo: "lo_predicts lo = predicts" "lo_targets lo = tgt'"
      "lo_nsentences lo = int (length (target smp))"
    by (auto simp: forward_def Let_def split: sum.splits)
  from compute_loss_plain_Inr [OF cl plain] tgt
  have t: "tgt' = target smp" "shape0 (get_normalized_probs m ?net) = length (target smp)"
    by simp_all
  from predicts_of_Inr [OF pr] obtain x where
    x: "?net = Logits x" "length predicts = shape0 x" by blast
  from rows x t have "length predicts = length (target smp)" by simp
  with lo t show ?thesis by simp
qed

theorem forward_logging_lengths_witness:
  "\<exists>l ss lo.
     forward (constant_aux 0) plain_criterion served_model
       \<lparr>net_input = np_array [[0, 0]], target = [1], ntokens = 9\<rparr> True = Inr (l, ss, lo) \<and>
     lo_nsentences lo = 1 \<and> length (lo_predicts lo) = 1 \<and> length (lo_targets lo) = 1"
proof -
  let ?smp = "\<lparr>net_input = np_array [[0, 0]], target = [1], ntokens = 9\<rparr>"
  obtain l ss lo where
    ok: "forward (constant_aux 0) plain_criterion served_model ?smp True = Inr (l, ss, lo)"
    and n: "lo_nsentences lo = 1"
    by (simp add: forward_def compute_loss_def loss_of_def plain_criterion_def served_model_def
        nll_loss_def nll_terms_def class_weight_def np_array_def softmax_dim1_def Let_def)
  have plain: "\<not> encoder_contrastive plain_criterion"
    by (simp add: plain_criterion_def)
  have rows: "shape0 (get_normalized_probs served_model (call served_model (net_input ?smp))) =
      shape0 (logits_of (call served_model (net_input ?smp)))"
    by (simp add: served_model_def)
  have tgt: "get_targets served_model ?smp (call served_model (net_input ?smp)) = target ?smp"
    by (simp add: served_model_def)
  from forward_logging_lengths [OF ok plain rows tgt] n
  have "length (lo_predicts lo) = 1 \<and> length (lo_targets lo) = 1" by simp
  with ok n show ?thesis by blast
qed

text \<open>
  In the encoder-contrastive mode the network output is the tuple, on which
  \<^verbatim>\<open>F.softmax\<close> raises: \<open>forward\<close> returns no logging output.
\<close>

lemma forward_tuple_raises:
  assumes "call m (net_input smp) = Aux a h c out x"
  shows "\<exists>e. forward aux crit m smp reduce = Inl e"
  using assms by (auto simp: forward_def Let_def split: sum.splits)

section \<open>Properties of the generation pass\<close>







lemma torch_stack_Inr: "torch_stack val = Inr t \<longleftrightarrow> stackable val \<and> t = val"
  by (auto simp: torch_stack_def stackable_def)

lemma torch_stack_Inl: "torch_stack val = Inl e \<longleftrightarrow> \<not> stackable val \<and> e = RuntimeError"
  by (auto simp: torch_stack_def stackable_def)































end
